theory Spec2Isabelle
  imports Main
begin

section \<open>Python values, exceptions and comparisons\<close>

text \<open>
  The engine of \<^verbatim>\<open>core/asimov_rules.py\<close> receives a context dictionary whose values are
  arbitrary Python objects. The model covers \<^verbatim>\<open>None\<close>, booleans, integers, strings and lists
  of these; floating point numbers, dictionaries as values and other objects are outside the
  model. A Python \<^verbatim>\<open>str\<close> is a \<open>string\<close> here, so only characters with code below 256 are
  covered. An exception raised by the source is the \<open>Inl\<close> branch of a sum.
\<close>

datatype py_error = TypeError | NameError

datatype pyval = PNone | PBool bool | PInt int | PStr string | PList "pyval list"

type_synonym "context" = "string \<rightharpoonup> pyval"

text \<open>Truth value testing, as \<^verbatim>\<open>if x:\<close> and \<^verbatim>\<open>and\<close> do it.\<close>

fun truthy :: "pyval \<Rightarrow> bool" where
  "truthy PNone = False"
| "truthy (PBool b) = b"
| "truthy (PInt i) = (i \<noteq> 0)"
| "truthy (PStr s) = (s \<noteq> [])"
| "truthy (PList xs) = (xs \<noteq> [])"

text \<open>\<^verbatim>\<open>bool\<close> is a subclass of \<^verbatim>\<open>int\<close>: \<^verbatim>\<open>True == 1\<close> and \<^verbatim>\<open>False < 2\<close>.\<close>

fun num_of :: "pyval \<Rightarrow> int option" where
  "num_of (PBool b) = Some (if b then 1 else 0)"
| "num_of (PInt i) = Some i"
| "num_of v = None"

text \<open>\<^verbatim>\<open>==\<close> never raises on these values; lists compare element by element.\<close>

fun py_eq :: "pyval \<Rightarrow> pyval \<Rightarrow> bool" where
  "py_eq PNone w = (w = PNone)"
| "py_eq (PBool b) w = (num_of w = Some (if b then 1 else 0))"
| "py_eq (PInt i) w = (num_of w = Some i)"
| "py_eq (PStr s) w = (w = PStr s)"
| "py_eq (PList xs) w = (case w of PList ys \<Rightarrow> list_all2 py_eq xs ys | _ \<Rightarrow> False)"

text \<open>Strings are ordered lexicographically by code point.\<close>

fun str_lt :: "string \<Rightarrow> string \<Rightarrow> bool" where
  "str_lt [] [] = False"
| "str_lt [] (y # ys) = True"
| "str_lt (x # xs) [] = False"
| "str_lt (x # xs) (y # ys) =
     (if (of_char x :: nat) < of_char y then True
      else if (of_char y :: nat) < of_char x then False
      else str_lt xs ys)"

datatype cmpop = Eq | Lt | Gt | GtE | In

text \<open>
  The ordering operators of the rule conditions (\<^verbatim>\<open><\<close>, \<^verbatim>\<open>>\<close>, \<^verbatim>\<open>>=\<close>). Numbers compare with
  numbers, strings with strings, lists with lists (at the first pair of elements that are not
  \<^verbatim>\<open>==\<close>, else by length); every other pairing raises \<^verbatim>\<open>TypeError\<close>, \<^verbatim>\<open>None < None\<close>
  included.
\<close>

definition ord_int :: "cmpop \<Rightarrow> int \<Rightarrow> int \<Rightarrow> bool" where
  "ord_int op a b = (case op of Lt \<Rightarrow> a < b | Gt \<Rightarrow> a > b | GtE \<Rightarrow> a \<ge> b | _ \<Rightarrow> False)"

definition ord_str :: "cmpop \<Rightarrow> string \<Rightarrow> string \<Rightarrow> bool" where
  "ord_str op a b =
     (case op of Lt \<Rightarrow> str_lt a b | Gt \<Rightarrow> str_lt b a | GtE \<Rightarrow> \<not> str_lt a b | _ \<Rightarrow> False)"

fun py_ord :: "cmpop \<Rightarrow> pyval \<Rightarrow> pyval \<Rightarrow> py_error + bool"
  and py_ord_list :: "cmpop \<Rightarrow> pyval list \<Rightarrow> pyval list \<Rightarrow> py_error + bool" where
  "py_ord op (PStr a) w = (case w of PStr b \<Rightarrow> Inr (ord_str op a b) | _ \<Rightarrow> Inl TypeError)"
| "py_ord op (PList xs) w = (case w of PList ys \<Rightarrow> py_ord_list op xs ys | _ \<Rightarrow> Inl TypeError)"
| "py_ord op PNone w = Inl TypeError"
| "py_ord op (PBool b) w =
     (case num_of w of Some j \<Rightarrow> Inr (ord_int op (if b then 1 else 0) j) | None \<Rightarrow> Inl TypeError)"
| "py_ord op (PInt i) w =
     (case num_of w of Some j \<Rightarrow> Inr (ord_int op i j) | None \<Rightarrow> Inl TypeError)"
| "py_ord_list op [] ys = Inr (ord_int op 0 (int (length ys)))"
| "py_ord_list op (x # xs) [] = Inr (ord_int op (1 + int (length xs)) 0)"
| "py_ord_list op (x # xs) (y # ys) =
     (if py_eq x y then py_ord_list op xs ys else py_ord op x y)"

text \<open>
  \<^verbatim>\<open>x in ys\<close>: for a list, some element is \<^verbatim>\<open>==\<close> to \<open>x\<close>; for a string, \<open>x\<close> must be a
  string and occur in it; nothing else of the model is a container.
\<close>

fun is_prefix :: "string \<Rightarrow> string \<Rightarrow> bool" where
  "is_prefix [] ys = True"
| "is_prefix (x # xs) [] = False"
| "is_prefix (x # xs) (y # ys) = (x = y \<and> is_prefix xs ys)"

fun is_substring :: "string \<Rightarrow> string \<Rightarrow> bool" where
  "is_substring xs [] = (xs = [])"
| "is_substring xs (y # ys) = (is_prefix xs (y # ys) \<or> is_substring xs ys)"

fun py_in :: "pyval \<Rightarrow> pyval \<Rightarrow> py_error + bool" where
  "py_in v (PList ys) = Inr (list_ex (py_eq v) ys)"
| "py_in v (PStr s) = (case v of PStr t \<Rightarrow> Inr (is_substring t s) | _ \<Rightarrow> Inl TypeError)"
| "py_in v w = Inl TypeError"

definition py_compare :: "cmpop \<Rightarrow> pyval \<Rightarrow> pyval \<Rightarrow> py_error + bool" where
  "py_compare op v w =
     (case op of Eq \<Rightarrow> Inr (py_eq v w) | In \<Rightarrow> py_in v w | _ \<Rightarrow> py_ord op v w)"

section \<open>Rule conditions\<close>

text \<open>
  A rule's \<^verbatim>\<open>condition\<close> is Python source text that \<^verbatim>\<open>_evaluate_rule_condition\<close> hands to
  \<^verbatim>\<open>eval(rule.condition, {"__builtins__": {}}, eval_context)\<close>. The model holds each
  condition as the syntax tree of its text: names, literals, one comparison, and
  \<^verbatim>\<open>and\<close>. A name that is not bound in the evaluation context raises \<^verbatim>\<open>NameError\<close>
  (the globals hold nothing but an empty builtins table).
\<close>

datatype pyexpr =
    Name string
  | Lit pyval
  | Compare pyexpr cmpop pyexpr
  | BoolAnd pyexpr pyexpr

fun eval_expr :: "context \<Rightarrow> pyexpr \<Rightarrow> py_error + pyval" where
  "eval_expr env (Name n) = (case env n of None \<Rightarrow> Inl NameError | Some v \<Rightarrow> Inr v)"
| "eval_expr env (Lit v) = Inr v"
| "eval_expr env (Compare a op b) =
     (case eval_expr env a of
        Inl e \<Rightarrow> Inl e
      | Inr v \<Rightarrow>
          (case eval_expr env b of
             Inl e \<Rightarrow> Inl e
           | Inr w \<Rightarrow> (case py_compare op v w of Inl e \<Rightarrow> Inl e | Inr r \<Rightarrow> Inr (PBool r))))"
| "eval_expr env (BoolAnd a b) =
     (case eval_expr env a of
        Inl e \<Rightarrow> Inl e
      | Inr v \<Rightarrow> if truthy v then eval_expr env b else Inr v)"

fun names_of :: "pyexpr \<Rightarrow> string list" where
  "names_of (Name n) = [n]"
| "names_of (Lit v) = []"
| "names_of (Compare a op b) = names_of a @ names_of b"
| "names_of (BoolAnd a b) = names_of a @ names_of b"

definition strs :: "string list \<Rightarrow> pyexpr" where
  "strs xs = Lit (PList (map PStr xs))"

section \<open>Dangerous patterns\<close>

text \<open>
  The keys of \<^verbatim>\<open>dangerous_patterns\<close> are regular expressions. Each uses literal
  characters, \<^verbatim>\<open>.\<close>, \<^verbatim>\<open>.*\<close>, alternation and the flag \<^verbatim>\<open>(?i)\<close>. \<^verbatim>\<open>re.search\<close> succeeds
  when some substring of the text is in the expression's language; it is decided here with
  derivatives. A literal matches both cases of an ASCII letter, and \<^verbatim>\<open>.\<close> matches every
  character but the newline.
\<close>

datatype regex = Nul | Eps | Chr char | Dot | Alt regex regex | Cat regex regex | Star regex

definition fold_case :: "char \<Rightarrow> nat" where
  "fold_case c = (let n = of_char c in if 65 \<le> n \<and> n \<le> 90 then n + 32 else n)"

fun nullable :: "regex \<Rightarrow> bool" where
  "nullable Nul = False"
| "nullable Eps = True"
| "nullable (Chr c) = False"
| "nullable Dot = False"
| "nullable (Alt r s) = (nullable r \<or> nullable s)"
| "nullable (Cat r s) = (nullable r \<and> nullable s)"
| "nullable (Star r) = True"

fun deriv :: "char \<Rightarrow> regex \<Rightarrow> regex" where
  "deriv c Nul = Nul"
| "deriv c Eps = Nul"
| "deriv c (Chr d) = (if fold_case c = fold_case d then Eps else Nul)"
| "deriv c Dot = (if (of_char c :: nat) = 10 then Nul else Eps)"
| "deriv c (Alt r s) = Alt (deriv c r) (deriv c s)"
| "deriv c (Cat r s) =
     (if nullable r then Alt (Cat (deriv c r) s) (deriv c s) else Cat (deriv c r) s)"
| "deriv c (Star r) = Cat (deriv c r) (Star r)"

fun match_prefix :: "regex \<Rightarrow> string \<Rightarrow> bool" where
  "match_prefix r [] = nullable r"
| "match_prefix r (c # cs) = (nullable r \<or> match_prefix (deriv c r) cs)"

fun re_search :: "regex \<Rightarrow> string \<Rightarrow> bool" where
  "re_search r [] = nullable r"
| "re_search r (c # cs) = (match_prefix r (c # cs) \<or> re_search r cs)"

text \<open>\<^verbatim>\<open>re.search(pattern, text)\<close> raises \<^verbatim>\<open>TypeError\<close> when the text is not a string.\<close>

definition py_re_search :: "regex \<Rightarrow> pyval \<Rightarrow> py_error + bool" where
  "py_re_search r v = (case v of PStr s \<Rightarrow> Inr (re_search r s) | _ \<Rightarrow> Inl TypeError)"

definition seq :: "string \<Rightarrow> regex" where
  "seq s = foldr (\<lambda>c r. Cat (if c = CHR ''.'' then Dot else Chr c) r) s Eps"

fun alts :: "string list \<Rightarrow> regex" where
  "alts [] = Nul"
| "alts [s] = seq s"
| "alts (s # ss) = Alt (seq s) (alts ss)"

definition then_any :: "regex \<Rightarrow> string \<Rightarrow> regex" where
  "then_any r s = Cat r (Cat (Star Dot) (seq s))"

section \<open>The data model\<close>

datatype SafetyLevel = SAFE | CAUTION | DANGEROUS | PROHIBITED

text \<open>The \<^verbatim>\<open>value\<close> of each member of the enumeration.\<close>

fun SafetyLevel_value :: "SafetyLevel \<Rightarrow> string" where
  "SafetyLevel_value SAFE = ''safe''"
| "SafetyLevel_value CAUTION = ''caution''"
| "SafetyLevel_value DANGEROUS = ''dangerous''"
| "SafetyLevel_value PROHIBITED = ''prohibited''"

text \<open>
  \<^verbatim>\<open>SafetyLevel\<close> derives from plain \<^verbatim>\<open>Enum\<close>, which defines no ordering: its members
  compare by identity only, and \<^verbatim>\<open>a > b\<close> raises \<^verbatim>\<open>TypeError\<close> for any two members.
  The builtin \<^verbatim>\<open>max(a, b)\<close> compares \<^verbatim>\<open>b > a\<close>, so on two safety levels it raises
  whatever the levels are.
\<close>

definition max_SafetyLevel :: "SafetyLevel \<Rightarrow> SafetyLevel \<Rightarrow> py_error + SafetyLevel" where
  "max_SafetyLevel a b = Inl TypeError"

datatype AsimovLaw = FIRST | SECOND | THIRD

text \<open>
  \<^verbatim>\<open>SafetyRule\<close>. The field \<^verbatim>\<open>id\<close> is \<open>id_rule\<close> here; \<^verbatim>\<open>metadata\<close>, which nothing
  reads, is left out.
\<close>

record SafetyRule =
  id_rule :: string
  law :: AsimovLaw
  name :: string
  description :: string
  condition :: pyexpr
  action :: string
  priority :: int
  enabled :: bool

text \<open>
  \<^verbatim>\<open>SafetyCheck\<close>. \<^verbatim>\<open>approved\<close> holds the value of a Python \<^verbatim>\<open>and\<close>/\<^verbatim>\<open>or\<close> expression,
  which can be the context's \<^verbatim>\<open>operator_approved\<close> entry itself, so it is a \<open>pyval\<close>.
\<close>

record SafetyCheck =
  approved :: pyval
  violated_laws :: "AsimovLaw list"
  violated_rules :: "string list"
  safety_level :: SafetyLevel
  reason :: string
  recommendations :: "string list"
  requires_approval :: bool
  approval_level :: string

type_synonym timestamp = string

text \<open>An entry of \<^verbatim>\<open>safety_logs\<close>; the dictionary's keys are the fields without \<open>entry_\<close>.\<close>

record log_entry =
  entry_timestamp :: timestamp
  entry_action_type :: string
  entry_context :: "context"
  entry_result :: SafetyCheck
  entry_emergency_stop_active :: bool

text \<open>
  The engine's attributes. \<^verbatim>\<open>rules\<close> is a dictionary from rule id to rule, kept in
  insertion order; \<^verbatim>\<open>operator_overrides\<close>, which nothing reads or writes, is left out.
\<close>

record engine =
  rules :: "(string \<times> SafetyRule) list"
  prohibited_actions :: "string set"
  dangerous_patterns :: "(regex \<times> string) list"
  emergency_stop_active :: bool
  safety_logs :: "log_entry list"

definition AsimovSafetyEngine_init :: engine where
  "AsimovSafetyEngine_init =
     \<lparr>rules = [], prohibited_actions = {}, dangerous_patterns = [],
      emergency_stop_active = False, safety_logs = []\<rparr>"

text \<open>\<^verbatim>\<open>d[k] = v\<close> on an insertion-ordered dictionary.\<close>

fun dict_set :: "'k \<Rightarrow> 'v \<Rightarrow> ('k \<times> 'v) list \<Rightarrow> ('k \<times> 'v) list" where
  "dict_set k v [] = [(k, v)]"
| "dict_set k v ((k', v') # xs) = (if k = k' then (k, v) # xs else (k', v') # dict_set k v xs)"

section \<open>Initialisation\<close>

definition rule :: "string \<Rightarrow> AsimovLaw \<Rightarrow> string \<Rightarrow> string \<Rightarrow> pyexpr \<Rightarrow> string \<Rightarrow> int \<Rightarrow> SafetyRule" where
  "rule i l n d c a p =
     \<lparr>id_rule = i, law = l, name = n, description = d, condition = c, action = a,
      priority = p, enabled = True\<rparr>"

definition first_law_rules :: "SafetyRule list" where
  "first_law_rules =
    [rule ''fl_001'' FIRST ''No Human Harm''
       ''Prevent any action that could directly harm humans''
       (Compare (Name ''action_type'') In
          (strs [''physical_access'', ''social_engineering'', ''doxxing'']))
       ''block'' 1,
     rule ''fl_002'' FIRST ''No Critical Infrastructure Attack''
       ''Prevent attacks on critical infrastructure''
       (Compare (Name ''target_type'') In
          (strs [''hospital'', ''power_grid'', ''water_supply'', ''emergency_services'']))
       ''block'' 1,
     rule ''fl_003'' FIRST ''No Personal Data Exposure''
       ''Prevent exposure of personal sensitive data''
       (Compare (Name ''data_type'') In (strs [''pii'', ''medical'', ''financial'', ''personal'']))
       ''require_approval'' 2,
     rule ''fl_004'' FIRST ''No Destructive Operations''
       ''Prevent destructive operations that could cause harm''
       (Compare (Name ''operation_type'') In (strs [''delete'', ''destroy'', ''corrupt'', ''wipe'']))
       ''require_approval'' 2,
     rule ''fl_005'' FIRST ''Privacy Protection''
       ''Protect individual privacy rights''
       (Compare (Name ''involves_private_data'') Eq (Lit (PBool True)))
       ''require_justification'' 3]"

definition second_law_rules :: "SafetyRule list" where
  "second_law_rules =
    [rule ''sl_001'' SECOND ''Operator Command Authority''
       ''Follow authenticated operator commands''
       (Compare (Name ''operator_authenticated'') Eq (Lit (PBool True)))
       ''allow'' 4,
     rule ''sl_002'' SECOND ''Emergency Override''
       ''Allow emergency override by authorized personnel''
       (BoolAnd (Compare (Name ''emergency_override'') Eq (Lit (PBool True)))
                (Compare (Name ''authorization_level'') GtE (Lit (PStr ''admin''))))
       ''allow_with_logging'' 3,
     rule ''sl_003'' SECOND ''Command Validation''
       ''Validate commands don't violate First Law''
       (Compare (Name ''command_violates_first_law'') Eq (Lit (PBool True)))
       ''block'' 1,
     rule ''sl_004'' SECOND ''Authorization Check''
       ''Ensure operator has required permissions''
       (Compare (Name ''operator_permission_level'') Lt (Name ''required_permission_level''))
       ''block'' 2]"

definition third_law_rules :: "SafetyRule list" where
  "third_law_rules =
    [rule ''tl_001'' THIRD ''System Protection''
       ''Protect system integrity and availability''
       (Compare (Name ''action_threatens_system'') Eq (Lit (PBool True)))
       ''require_approval'' 5,
     rule ''tl_002'' THIRD ''Resource Protection''
       ''Prevent resource exhaustion''
       (Compare (Name ''resource_usage'') Gt (Lit (PInt 90)))
       ''limit_operations'' 6,
     rule ''tl_003'' THIRD ''Data Integrity''
       ''Protect mission logs and evidence''
       (Compare (Name ''action_type'') Eq (Lit (PStr ''modify_logs'')))
       ''block'' 4,
     rule ''tl_004'' THIRD ''Network Security''
       ''Maintain secure communications''
       (Compare (Name ''communication_insecure'') Eq (Lit (PBool True)))
       ''require_encryption'' 5]"

definition all_rules :: "SafetyRule list" where
  "all_rules = first_law_rules @ second_law_rules @ third_law_rules"

definition load_core_rules :: "engine \<Rightarrow> engine" where
  "load_core_rules st =
     st\<lparr>rules := fold (\<lambda>r d. dict_set (id_rule r) r d) all_rules (rules st)\<rparr>"

text \<open>The set and the dictionary that the two initialisers assign.\<close>

definition core_prohibited_actions :: "string set" where
  "core_prohibited_actions =
     {''physical_attack'', ''weapon_systems'', ''explosive_devices'',
      ''power_grid_attack'', ''water_supply_attack'', ''hospital_systems_attack'',
      ''emergency_services_attack'', ''air_traffic_control_attack'',
      ''doxxing'', ''stalking'', ''harassment'', ''identity_theft'', ''financial_fraud'',
      ''data_destruction'', ''system_corruption'', ''permanent_damage'',
      ''unauthorized_surveillance'', ''private_data_theft'', ''medical_record_access''}"

definition core_dangerous_patterns :: "(regex \<times> string) list" where
  "core_dangerous_patterns =
       [(alts [''ddos'', ''denial.of.service''], ''DDoS attack patterns''),
        (alts [''ransomware'', ''crypto.lock''], ''Ransomware indicators''),
        (alts [''botnet'', ''zombie''], ''Botnet operations''),
        (then_any (alts [''delete'', ''drop'', ''truncate'']) ''database'', ''Database destruction''),
        (then_any (alts [''format'', ''wipe'', ''erase'']) ''drive'', ''Data wiping operations''),
        (then_any (alts [''steal'', ''exfiltrate'', ''extract'']) ''data'', ''Data theft operations''),
        (alts [''backdoor'', ''rootkit'', ''trojan''], ''Malware installation''),
        (alts [''privilege.escalation'', ''admin.access''], ''Unauthorized access''),
        (alts [''keylogger'', ''screen.capture''], ''Surveillance tools''),
        (alts [''phishing'', ''social.engineering''], ''Social engineering''),
        (alts [''impersonat'', ''identity.theft''], ''Identity crimes'')]"

definition initialize_prohibited_actions :: "engine \<Rightarrow> engine" where
  "initialize_prohibited_actions st = st\<lparr>prohibited_actions := core_prohibited_actions\<rparr>"

definition initialize_dangerous_patterns :: "engine \<Rightarrow> engine" where
  "initialize_dangerous_patterns st = st\<lparr>dangerous_patterns := core_dangerous_patterns\<rparr>"

definition initialize :: "engine \<Rightarrow> engine" where
  "initialize st = initialize_dangerous_patterns (initialize_prohibited_actions (load_core_rules st))"

section \<open>Validating an action\<close>

text \<open>\<^verbatim>\<open>d.get(k, default)\<close>; \<^verbatim>\<open>d.get(k)\<close> has the default \<^verbatim>\<open>None\<close>.\<close>

definition py_get_default :: "context \<Rightarrow> string \<Rightarrow> pyval \<Rightarrow> pyval" where
  "py_get_default d k dflt = (case d k of None \<Rightarrow> dflt | Some v \<Rightarrow> v)"

text \<open>
  \<^verbatim>\<open>_evaluate_rule_condition\<close>: the evaluation context is
  \<^verbatim>\<open>{"action_type": action_type, **context}\<close>, so an \<^verbatim>\<open>action_type\<close> entry of the context
  overrides the parameter. Every exception of \<^verbatim>\<open>eval\<close> is caught and gives \<^verbatim>\<open>False\<close>.
\<close>

definition eval_context :: "string \<Rightarrow> context \<Rightarrow> context" where
  "eval_context action_type ctx = [''action_type'' \<mapsto> PStr action_type] ++ ctx"

definition evaluate_rule_condition :: "SafetyRule \<Rightarrow> string \<Rightarrow> context \<Rightarrow> pyval" where
  "evaluate_rule_condition r action_type ctx =
     (case eval_expr (eval_context action_type ctx) (condition r) of
        Inl e \<Rightarrow> PBool False
      | Inr v \<Rightarrow> v)"

fun join :: "string \<Rightarrow> string list \<Rightarrow> string" where
  "join sep [] = []"
| "join sep [x] = x"
| "join sep (x # y # ys) = x @ sep @ join sep (y # ys)"

fun law_descriptions :: "AsimovLaw \<Rightarrow> string" where
  "law_descriptions FIRST = ''First Law (Do No Harm)''"
| "law_descriptions SECOND = ''Second Law (Obey Operators)''"
| "law_descriptions THIRD = ''Third Law (Self-Preservation)''"

definition generate_reason :: "AsimovLaw list \<Rightarrow> string list \<Rightarrow> SafetyLevel \<Rightarrow> string" where
  "generate_reason laws vrules level =
     (if laws = [] then ''Action approved - no safety violations detected''
      else ''Action violates '' @ join '', '' (map law_descriptions laws)
           @ ''. Safety level: '' @ SafetyLevel_value level
           @ ''. Rules: '' @ join '', '' vrules)"

text \<open>
  \<^verbatim>\<open>_log_safety_check\<close>: append the entry, then keep the last 10000. The time stamp is read
  from the clock; it is the parameter \<open>now\<close>.
\<close>

definition log_safety_check ::
  "engine \<Rightarrow> string \<Rightarrow> context \<Rightarrow> SafetyCheck \<Rightarrow> timestamp \<Rightarrow> engine" where
  "log_safety_check st action_type ctx res now =
     (let log_entry =
            \<lparr>entry_timestamp = now, entry_action_type = action_type, entry_context = ctx,
             entry_result = res, entry_emergency_stop_active = emergency_stop_active st\<rparr>;
          logs = safety_logs st @ [log_entry]
      in st\<lparr>safety_logs :=
              (if length logs > 10000 then drop (length logs - 10000) logs else logs)\<rparr>)"

text \<open>The local variables of \<^verbatim>\<open>validate_action\<close> that its two loops update.\<close>

record locals =
  cur_violated_laws :: "AsimovLaw list"
  cur_violated_rules :: "string list"
  cur_safety_level :: SafetyLevel
  cur_requires_approval :: bool
  cur_recommendations :: "string list"

text \<open>The loop over \<^verbatim>\<open>dangerous_patterns.items()\<close>.\<close>

fun check_patterns :: "(regex \<times> string) list \<Rightarrow> pyval \<Rightarrow> locals \<Rightarrow> py_error + locals" where
  "check_patterns [] action_description l = Inr l"
| "check_patterns ((pattern, descr) # ps) action_description l =
     (case py_re_search pattern action_description of
        Inl e \<Rightarrow> Inl e
      | Inr False \<Rightarrow> check_patterns ps action_description l
      | Inr True \<Rightarrow>
          (case max_SafetyLevel (cur_safety_level l) DANGEROUS of
             Inl e \<Rightarrow> Inl e
           | Inr m \<Rightarrow>
               check_patterns ps action_description
                 (l\<lparr>cur_violated_laws := cur_violated_laws l @ [FIRST],
                    cur_violated_rules := cur_violated_rules l @ [''dangerous_pattern: '' @ descr],
                    cur_safety_level := m\<rparr>)))"

text \<open>The loop over \<^verbatim>\<open>rules.values()\<close>.\<close>

fun apply_rules :: "SafetyRule list \<Rightarrow> string \<Rightarrow> context \<Rightarrow> locals \<Rightarrow> py_error + locals" where
  "apply_rules [] action_type ctx l = Inr l"
| "apply_rules (r # rs) action_type ctx l =
     (if \<not> enabled r then apply_rules rs action_type ctx l
      else if truthy (evaluate_rule_condition r action_type ctx) then
        (if action r = ''block'' then
           apply_rules rs action_type ctx
             (l\<lparr>cur_violated_laws := cur_violated_laws l @ [law r],
                cur_violated_rules := cur_violated_rules l @ [id_rule r],
                cur_safety_level := PROHIBITED\<rparr>)
         else if action r = ''require_approval'' then
           (case max_SafetyLevel (cur_safety_level l) CAUTION of
              Inl e \<Rightarrow> Inl e
            | Inr m \<Rightarrow>
                apply_rules rs action_type ctx
                  (l\<lparr>cur_requires_approval := True,
                     cur_safety_level := m,
                     cur_recommendations :=
                       cur_recommendations l @ [''Requires approval: '' @ description r]\<rparr>))
         else if action r = ''require_justification'' then
           apply_rules rs action_type ctx
             (l\<lparr>cur_requires_approval := True,
                cur_recommendations :=
                  cur_recommendations l @ [''Requires justification: '' @ description r]\<rparr>)
         else apply_rules rs action_type ctx l)
      else apply_rules rs action_type ctx l)"

definition emergency_check :: SafetyCheck where
  "emergency_check =
     \<lparr>approved = PBool False, violated_laws = [FIRST], violated_rules = [''emergency_stop''],
      safety_level = PROHIBITED,
      reason = ''Emergency stop is active - all operations suspended'',
      recommendations = [''Wait for emergency stop to be deactivated''],
      requires_approval = False, approval_level = ''operator''\<rparr>"

text \<open>
  The verdict built from the locals. \<^verbatim>\<open>list(set(violated_laws))\<close> keeps one copy of each
  law in an order Python does not specify; \<open>remdups\<close> stands for it, and no statement below
  depends on the order.
\<close>

definition make_check :: "context \<Rightarrow> locals \<Rightarrow> SafetyCheck" where
  "make_check ctx l =
     \<lparr>approved =
        (if cur_violated_laws l = [] then
           (if cur_safety_level l \<noteq> PROHIBITED then
              (if \<not> cur_requires_approval l then PBool True
               else py_get_default ctx ''operator_approved'' (PBool False))
            else PBool False)
         else PBool False),
      violated_laws = remdups (cur_violated_laws l),
      violated_rules = cur_violated_rules l,
      safety_level = cur_safety_level l,
      reason = generate_reason (cur_violated_laws l) (cur_violated_rules l) (cur_safety_level l),
      recommendations = cur_recommendations l,
      requires_approval = cur_requires_approval l,
      approval_level = ''operator''\<rparr>"

text \<open>
  \<^verbatim>\<open>validate_action\<close> returns the verdict, or the exception that left it, and the engine
  afterwards. No statement of the function is inside a \<^verbatim>\<open>try\<close>, so an exception of either
  loop reaches the caller, and the engine is then as it was.
\<close>

definition validate_action ::
  "engine \<Rightarrow> string \<Rightarrow> context \<Rightarrow> timestamp \<Rightarrow> (py_error + SafetyCheck) \<times> engine" where
  "validate_action st action_type ctx now =
     (if emergency_stop_active st then (Inr emergency_check, st)
      else
        let l0 = \<lparr>cur_violated_laws = [], cur_violated_rules = [], cur_safety_level = SAFE,
                  cur_requires_approval = False, cur_recommendations = []\<rparr>;
            l1 = (if action_type \<in> prohibited_actions st
                  then l0\<lparr>cur_violated_laws := [FIRST],
                          cur_violated_rules := [''prohibited_action''],
                          cur_safety_level := PROHIBITED\<rparr>
                  else l0);
            action_description = py_get_default ctx ''description'' (PStr [])
        in case check_patterns (dangerous_patterns st) action_description l1 of
             Inl e \<Rightarrow> (Inl e, st)
           | Inr l2 \<Rightarrow>
               (case apply_rules (map snd (rules st)) action_type ctx l2 of
                  Inl e \<Rightarrow> (Inl e, st)
                | Inr l3 \<Rightarrow>
                    (Inr (make_check ctx l3),
                     log_safety_check st action_type ctx (make_check ctx l3) now)))"

section \<open>Validating a mission\<close>

text \<open>
  \<^verbatim>\<open>for objective in objectives\<close> iterates a list or the characters of a string; the other
  values of the model are not iterable.
\<close>

fun py_iter :: "pyval \<Rightarrow> py_error + pyval list" where
  "py_iter (PList xs) = Inr xs"
| "py_iter (PStr s) = Inr (map (\<lambda>c. PStr [c]) s)"
| "py_iter v = Inl TypeError"

definition mission_context :: "context \<Rightarrow> pyval \<Rightarrow> context" where
  "mission_context mission_data objective =
     [''objective'' \<mapsto> objective,
      ''mission_id'' \<mapsto> py_get_default mission_data ''id'' PNone,
      ''priority'' \<mapsto> py_get_default mission_data ''priority'' PNone] ++ mission_data"

text \<open>
  The loop that fills \<^verbatim>\<open>all_checks\<close>; \<open>clock i\<close> is the time stamp read during the check of
  objective number \<open>i\<close>.
\<close>

fun check_objectives ::
  "engine \<Rightarrow> context \<Rightarrow> (nat \<Rightarrow> timestamp) \<Rightarrow> nat \<Rightarrow> pyval list \<Rightarrow>
     (py_error + SafetyCheck list) \<times> engine" where
  "check_objectives st mission_data clock i [] = (Inr [], st)"
| "check_objectives st mission_data clock i (objective # os) =
     (case validate_action st ''mission_objective'' (mission_context mission_data objective)
             (clock i) of
        (Inl e, st') \<Rightarrow> (Inl e, st')
      | (Inr c, st') \<Rightarrow>
          (case check_objectives st' mission_data clock (Suc i) os of
             (Inl e, st'') \<Rightarrow> (Inl e, st'')
           | (Inr cs, st'') \<Rightarrow> (Inr (c # cs), st'')))"

definition digit :: "nat \<Rightarrow> char" where
  "digit n = ''0123456789'' ! (n mod 10)"

fun str_nat :: "nat \<Rightarrow> string" where
  "str_nat n = (if n < 10 then [digit n] else str_nat (n div 10) @ [digit n])"

definition aggregate :: "SafetyCheck list \<Rightarrow> SafetyCheck" where
  "aggregate all_checks =
     \<lparr>approved = PBool (list_all (\<lambda>c. truthy (approved c)) all_checks),
      violated_laws = remdups (concat (map violated_laws all_checks)),
      violated_rules = remdups (concat (map violated_rules all_checks)),
      safety_level =
        (if list_ex (\<lambda>c. safety_level c = PROHIBITED) all_checks then PROHIBITED
         else if list_ex (\<lambda>c. safety_level c = DANGEROUS) all_checks then DANGEROUS
         else if list_ex (\<lambda>c. safety_level c = CAUTION) all_checks then CAUTION
         else SAFE),
      reason = ''Mission validation: '' @ str_nat (length all_checks) @ '' objectives checked'',
      recommendations = [],
      requires_approval = list_ex requires_approval all_checks,
      approval_level = ''operator''\<rparr>"

definition validate_mission ::
  "engine \<Rightarrow> context \<Rightarrow> (nat \<Rightarrow> timestamp) \<Rightarrow> (py_error + SafetyCheck) \<times> engine" where
  "validate_mission st mission_data clock =
     (case py_iter (py_get_default mission_data ''objectives'' (PList [])) of
        Inl e \<Rightarrow> (Inl e, st)
      | Inr objectives \<Rightarrow>
          (case check_objectives st mission_data clock 0 objectives of
             (Inl e, st') \<Rightarrow> (Inl e, st')
           | (Inr all_checks, st') \<Rightarrow> (Inr (aggregate all_checks), st')))"

section \<open>The emergency stop\<close>

text \<open>
  \<^verbatim>\<open>emergency_stop\<close> sets the flag and logs an entry whose context holds the clock reading;
  \<^verbatim>\<open>deactivate_emergency_stop\<close> clears the flag and logs nothing in \<^verbatim>\<open>safety_logs\<close>.
\<close>

definition emergency_stop :: "engine \<Rightarrow> timestamp \<Rightarrow> engine" where
  "emergency_stop st now =
     log_safety_check (st\<lparr>emergency_stop_active := True\<rparr>) ''emergency_stop''
       [''timestamp'' \<mapsto> PStr now]
       \<lparr>approved = PBool False, violated_laws = [], violated_rules = [''emergency_stop''],
        safety_level = PROHIBITED, reason = ''Emergency stop activated by operator'',
        recommendations = [''All operations suspended for safety''],
        requires_approval = False, approval_level = ''operator''\<rparr>
       now"

definition deactivate_emergency_stop :: "engine \<Rightarrow> string \<Rightarrow> engine" where
  "deactivate_emergency_stop st operator_id = st\<lparr>emergency_stop_active := False\<rparr>"

section \<open>Notions used by the statements\<close>

text \<open>The engine after \<^verbatim>\<open>AsimovSafetyEngine()\<close> and \<^verbatim>\<open>initialize()\<close>.\<close>

definition started_engine :: engine where
  "started_engine = initialize AsimovSafetyEngine_init"

text \<open>An engine that holds the core rules, prohibited actions and patterns.\<close>

definition initialized :: "engine \<Rightarrow> bool" where
  "initialized st =
     (map snd (rules st) = all_rules \<and> prohibited_actions st = core_prohibited_actions \<and>
      dangerous_patterns st = core_dangerous_patterns)"

text \<open>Two engines that differ in their logs at most.\<close>

definition same_config :: "engine \<Rightarrow> engine \<Rightarrow> bool" where
  "same_config st st' =
     (rules st' = rules st \<and> prohibited_actions st' = prohibited_actions st \<and>
      dangerous_patterns st' = dangerous_patterns st \<and>
      emergency_stop_active st' = emergency_stop_active st)"

text \<open>The values listed on the right of the \<^verbatim>\<open>in\<close> tests of a condition.\<close>

fun member_lists :: "pyexpr \<Rightarrow> pyval list" where
  "member_lists (Compare a In (Lit (PList xs))) = member_lists a @ xs"
| "member_lists (Compare a op b) = member_lists a @ member_lists b"
| "member_lists (BoolAnd a b) = member_lists a @ member_lists b"
| "member_lists e = []"

text \<open>The order SAFE < CAUTION < DANGEROUS < PROHIBITED, as a rank.\<close>

fun level_rank :: "SafetyLevel \<Rightarrow> nat" where
  "level_rank SAFE = 0"
| "level_rank CAUTION = 1"
| "level_rank DANGEROUS = 2"
| "level_rank PROHIBITED = 3"

text \<open>The engines that a sequence of calls can produce from a new engine.\<close>

inductive reachable :: "engine \<Rightarrow> bool" where
  reach_init: "reachable AsimovSafetyEngine_init"
| reach_initialize: "reachable st \<Longrightarrow> reachable (initialize st)"
| reach_action: "reachable st \<Longrightarrow> reachable (snd (validate_action st action_type ctx now))"
| reach_mission: "reachable st \<Longrightarrow> reachable (snd (validate_mission st mission_data clock))"
| reach_stop: "reachable st \<Longrightarrow> reachable (emergency_stop st now)"
| reach_deactivate: "reachable st \<Longrightarrow> reachable (deactivate_emergency_stop st operator_id)"

text \<open>
  A sequence of calls of \<^verbatim>\<open>_log_safety_check\<close>, each given by its arguments and clock
  reading, and the entry that a call appends.
\<close>

type_synonym log_call = "string \<times> context \<times> SafetyCheck \<times> timestamp"

fun log_all :: "engine \<Rightarrow> log_call list \<Rightarrow> engine" where
  "log_all st [] = st"
| "log_all st ((action_type, ctx, res, now) # cs) =
     log_all (log_safety_check st action_type ctx res now) cs"

fun entry_of :: "bool \<Rightarrow> log_call \<Rightarrow> log_entry" where
  "entry_of stopped (action_type, ctx, res, now) =
     \<lparr>entry_timestamp = now, entry_action_type = action_type, entry_context = ctx,
      entry_result = res, entry_emergency_stop_active = stopped\<rparr>"

text \<open>An example verdict: what rule \<^verbatim>\<open>fl_002\<close> alone gives.\<close>

definition hospital_check :: SafetyCheck where
  "hospital_check =
     \<lparr>approved = PBool False, violated_laws = [FIRST], violated_rules = [''fl_002''],
      safety_level = PROHIBITED,
      reason = ''Action violates First Law (Do No Harm). Safety level: prohibited. Rules: fl_002'',
      recommendations = [], requires_approval = False, approval_level = ''operator''\<rparr>"

text \<open>All values that the core rules list on the right of an \<^verbatim>\<open>in\<close> test.\<close>

definition listed_values :: "pyval list" where
  "listed_values = concat (map (\<lambda>r. member_lists (condition r)) all_rules)"

text \<open>The verdict of a check in which nothing matched.\<close>

definition allow_check :: SafetyCheck where
  "allow_check =
     \<lparr>approved = PBool True, violated_laws = [], violated_rules = [], safety_level = SAFE,
      reason = ''Action approved - no safety violations detected'',
      recommendations = [], requires_approval = False, approval_level = ''operator''\<rparr>"

text \<open>An example of 10001 calls of the logger, with time stamps of different lengths.\<close>

definition burst :: "log_call list" where
  "burst = map (\<lambda>i. (''network_scan'', Map.empty, allow_check, replicate i CHR ''x'')) [0..<10001]"

section \<open>The started engine\<close>

lemma rules_started: "map snd (rules started_engine) = all_rules"
  by (simp add: started_engine_def initialize_def load_core_rules_def AsimovSafetyEngine_init_def
      initialize_prohibited_actions_def initialize_dangerous_patterns_def all_rules_def
      first_law_rules_def second_law_rules_def third_law_rules_def rule_def)

lemma started_fields:
  "prohibited_actions started_engine = core_prohibited_actions"
  "dangerous_patterns started_engine = core_dangerous_patterns"
  "emergency_stop_active started_engine = False"
  "safety_logs started_engine = []"
  by (simp_all add: started_engine_def initialize_def load_core_rules_def
      AsimovSafetyEngine_init_def initialize_prohibited_actions_def
      initialize_dangerous_patterns_def)

lemma initialized_started: "initialized started_engine"
  by (simp add: initialized_def rules_started started_fields)

section \<open>The safety level is combined with max\<close>

text \<open>
  C2. The claim: the verdict's safety level is the maximum, in the order
  SAFE < CAUTION < DANGEROUS < PROHIBITED, of the levels of all that matched. The code calls
  \<^verbatim>\<open>max(safety_level, SafetyLevel.DANGEROUS)\<close> when a pattern matches, and \<^verbatim>\<open>SafetyLevel\<close>
  has no ordering: for the action \<^verbatim>\<open>network_scan\<close> with the description \<^verbatim>\<open>ddos\<close> the call
  of \<^verbatim>\<open>validate_action\<close> ends in a \<^verbatim>\<open>TypeError\<close> and no verdict is returned.
\<close>

theorem pattern_match_raises:
  "fst (validate_action started_engine ''network_scan'' [''description'' \<mapsto> PStr ''ddos'']
          ''2026-01-01T00:00:00'') = Inl TypeError"
  by (simp add: validate_action_def started_fields rules_started core_prohibited_actions_def
      core_dangerous_patterns_def py_get_default_def py_re_search_def max_SafetyLevel_def
      seq_def fold_case_def)

text \<open>
  C6. The claim: \<^verbatim>\<open>data_export\<close> with \<^verbatim>\<open>{data_type: "pii"}\<close> gives a verdict that requires
  approval at level CAUTION. Rule \<^verbatim>\<open>fl_003\<close> matches, and its branch calls
  \<^verbatim>\<open>max(safety_level, SafetyLevel.CAUTION)\<close>: the call of \<^verbatim>\<open>validate_action\<close> ends in a
  \<^verbatim>\<open>TypeError\<close>, with and without \<^verbatim>\<open>operator_approved\<close>.
\<close>

theorem require_approval_raises:
  "fst (validate_action started_engine ''data_export'' [''data_type'' \<mapsto> PStr ''pii'']
          ''2026-01-01T00:00:00'') = Inl TypeError \<and>
   fst (validate_action started_engine ''data_export''
          [''data_type'' \<mapsto> PStr ''pii'', ''operator_approved'' \<mapsto> PBool True]
          ''2026-01-01T00:00:00'') = Inl TypeError"
  by (simp add: validate_action_def started_fields rules_started core_prohibited_actions_def
      core_dangerous_patterns_def py_get_default_def py_re_search_def max_SafetyLevel_def
      seq_def then_any_def all_rules_def first_law_rules_def second_law_rules_def
      third_law_rules_def rule_def evaluate_rule_condition_def eval_context_def strs_def
      py_compare_def)

section \<open>The two loops of validate_action\<close>

lemma check_patterns_Inr: "check_patterns ps v l = Inr l' \<Longrightarrow> l' = l"
  by (induction ps v l rule: check_patterns.induct)
     (auto simp: max_SafetyLevel_def split: sum.splits bool.splits)

lemma check_patterns_no_match:
  "list_all (\<lambda>(p, d'). \<not> re_search p d) ps \<Longrightarrow> check_patterns ps (PStr d) l = Inr l"
  by (induction ps) (auto simp: py_re_search_def)

lemma check_patterns_not_str:
  "ps \<noteq> [] \<Longrightarrow> (\<forall>d. v \<noteq> PStr d) \<Longrightarrow> check_patterns ps v l = Inl TypeError"
  by (cases ps; cases v) (auto simp: py_re_search_def)

lemma apply_rules_total:
  "list_all (\<lambda>r. \<not> (enabled r \<and> action r = ''require_approval'' \<and>
       truthy (evaluate_rule_condition r a ctx))) rs \<Longrightarrow> \<exists>l'. apply_rules rs a ctx l = Inr l'"
  by (induction rs arbitrary: l) auto

lemma apply_rules_keeps:
  "apply_rules rs a ctx l = Inr l' \<Longrightarrow>
     set (cur_violated_laws l) \<subseteq> set (cur_violated_laws l') \<and>
     (cur_safety_level l = PROHIBITED \<longrightarrow> cur_safety_level l' = PROHIBITED)"
proof (induction rs arbitrary: l)
  case Nil
  then show ?case by simp
next
  case (Cons r rs)
  then show ?case
    by (fastforce simp: max_SafetyLevel_def split: if_splits)
qed

lemma log_same_config: "same_config st (log_safety_check st a ctx res now)"
  by (simp add: same_config_def log_safety_check_def Let_def)

lemma validate_action_same_config: "same_config st (snd (validate_action st a ctx now))"
  by (simp add: validate_action_def Let_def same_config_def log_safety_check_def split: sum.splits)

lemma validate_action_config:
  "same_config st st' \<Longrightarrow> fst (validate_action st' a ctx now') = fst (validate_action st a ctx now)"
  by (simp add: validate_action_def Let_def same_config_def split: sum.splits)

lemma no_pattern_in_empty:
  "list_all (\<lambda>(p, d'). \<not> re_search p []) core_dangerous_patterns"
  by (simp add: core_dangerous_patterns_def seq_def then_any_def)

lemma no_rule_on_empty:
  "a \<notin> {''physical_access'', ''social_engineering'', ''doxxing'', ''modify_logs''} \<Longrightarrow>
   list_all (\<lambda>r. \<not> truthy (evaluate_rule_condition r a Map.empty)) all_rules"
  by (simp add: all_rules_def first_law_rules_def second_law_rules_def
      third_law_rules_def rule_def evaluate_rule_condition_def eval_context_def strs_def
      py_compare_def) auto


section \<open>What validate_action returns and what it raises\<close>

text \<open>
  C1, as amended. The claim: \<^verbatim>\<open>validate_action\<close> always returns a verdict, and turns an
  internal fault into a verdict that is not approved. The function has no handler, so that
  does not hold (see the counterexample below). What holds: while the emergency stop is
  active the stop verdict is returned; otherwise, when the description is absent or a string
  that no dangerous pattern matches, and no enabled rule with the action
  \<^verbatim>\<open>require_approval\<close> has a true condition, a verdict is returned and logged; and when the
  description is not a string and patterns are loaded, the \<^verbatim>\<open>TypeError\<close> of \<^verbatim>\<open>re.search\<close>
  reaches the caller and the engine is unchanged.
\<close>

theorem validate_action_returns_or_raises:
  "(emergency_stop_active st \<longrightarrow> validate_action st a ctx now = (Inr emergency_check, st)) \<and>
   (\<not> emergency_stop_active st \<longrightarrow>
      (\<forall>d. py_get_default ctx ''description'' (PStr []) = PStr d \<longrightarrow>
           list_all (\<lambda>(p, d'). \<not> re_search p d) (dangerous_patterns st) \<longrightarrow>
           list_all (\<lambda>r. \<not> (enabled r \<and> action r = ''require_approval'' \<and>
                              truthy (evaluate_rule_condition r a ctx))) (map snd (rules st)) \<longrightarrow>
           (\<exists>v. validate_action st a ctx now = (Inr v, log_safety_check st a ctx v now))) \<and>
      ((\<forall>d. py_get_default ctx ''description'' (PStr []) \<noteq> PStr d) \<longrightarrow>
           dangerous_patterns st \<noteq> [] \<longrightarrow>
           validate_action st a ctx now = (Inl TypeError, st)))"
proof (intro conjI impI allI)
  assume "emergency_stop_active st"
  then show "validate_action st a ctx now = (Inr emergency_check, st)"
    by (simp add: validate_action_def)
next
  fix d
  assume stop: "\<not> emergency_stop_active st"
    and d: "py_get_default ctx ''description'' (PStr []) = PStr d"
    and pats: "list_all (\<lambda>(p, d'). \<not> re_search p d) (dangerous_patterns st)"
    and rls: "list_all (\<lambda>r. \<not> (enabled r \<and> action r = ''require_approval'' \<and>
                truthy (evaluate_rule_condition r a ctx))) (map snd (rules st))"
  show "\<exists>v. validate_action st a ctx now = (Inr v, log_safety_check st a ctx v now)"
  proof -
    have p: "\<And>l. check_patterns (dangerous_patterns st) (PStr d) l = Inr l"
      using pats by (rule check_patterns_no_match)
    obtain l' where "apply_rules (map snd (rules st)) a ctx
        (if a \<in> prohibited_actions st
         then \<lparr>cur_violated_laws = [FIRST], cur_violated_rules = [''prohibited_action''],
               cur_safety_level = PROHIBITED, cur_requires_approval = False,
               cur_recommendations = []\<rparr>
         else \<lparr>cur_violated_laws = [], cur_violated_rules = [], cur_safety_level = SAFE,
               cur_requires_approval = False, cur_recommendations = []\<rparr>) = Inr l'"
      using apply_rules_total [OF rls] by blast
    then show ?thesis
      using stop d p by (auto simp: validate_action_def Let_def)
  qed
next
  assume stop: "\<not> emergency_stop_active st"
    and d: "\<forall>d. py_get_default ctx ''description'' (PStr []) \<noteq> PStr d"
    and ne: "dangerous_patterns st \<noteq> []"
  show "validate_action st a ctx now = (Inl TypeError, st)"
    using stop check_patterns_not_str [OF ne d] by (simp add: validate_action_def Let_def)
qed


theorem validate_action_returns_or_raises_witness:
  "(\<exists>v. validate_action started_engine ''user_login'' Map.empty ''t1''
          = (Inr v, log_safety_check started_engine ''user_login'' Map.empty v ''t1'')) \<and>
   validate_action started_engine ''user_login'' [''description'' \<mapsto> PInt 5] ''t1''
      = (Inl TypeError, started_engine) \<and>
   validate_action (started_engine\<lparr>emergency_stop_active := True\<rparr>) ''user_login'' Map.empty ''t1''
      = (Inr emergency_check, started_engine\<lparr>emergency_stop_active := True\<rparr>)"
proof -
  have r: "list_all (\<lambda>r. \<not> (enabled r \<and> action r = ''require_approval'' \<and>
                truthy (evaluate_rule_condition r ''user_login'' Map.empty)))
             (map snd (rules started_engine))"
    using no_rule_on_empty [of "''user_login''"]
    by (simp add: rules_started list_all_iff)
  have p: "list_all (\<lambda>(p, d'). \<not> re_search p []) (dangerous_patterns started_engine)"
    using no_pattern_in_empty by (simp add: started_fields)
  have n: "dangerous_patterns started_engine \<noteq> []"
    by (simp add: started_fields core_dangerous_patterns_def)
  show ?thesis
    using validate_action_returns_or_raises [of started_engine "''user_login''" Map.empty "''t1''"]
      validate_action_returns_or_raises
        [of started_engine "''user_login''" "[''description'' \<mapsto> PInt 5]" "''t1''"]
      validate_action_returns_or_raises
        [of "started_engine\<lparr>emergency_stop_active := True\<rparr>" "''user_login''" Map.empty "''t1''"]
      r p n
    by (simp add: started_fields py_get_default_def)
qed

text \<open>
  C1, the counterexample: with a description that is the number 5, the call on the started
  engine gives no verdict; the \<^verbatim>\<open>TypeError\<close> leaves \<^verbatim>\<open>validate_action\<close>.
\<close>

theorem nonstring_description_counterexample:
  "fst (validate_action started_engine ''user_login'' [''description'' \<mapsto> PInt 5]
          ''2026-01-01T00:00:00'') = Inl TypeError"
  by (simp add: validate_action_def started_fields rules_started core_prohibited_actions_def
      core_dangerous_patterns_def py_get_default_def py_re_search_def)

section \<open>Validating a mission: the aggregate\<close>

lemma same_config_trans: "same_config st st' \<Longrightarrow> same_config st' st'' \<Longrightarrow> same_config st st''"
  by (simp add: same_config_def)

lemma check_objectives_all:
  "list_all2 (\<lambda>ob c. fst (validate_action st ''mission_objective'' (mission_context md ob) now)
                  = Inr c) objs cs \<Longrightarrow>
   same_config st st' \<Longrightarrow> fst (check_objectives st' md clock i objs) = Inr cs"
proof (induction objs cs arbitrary: st' i rule: list_all2_induct)
  case Nil
  then show ?case by simp
next
  case (Cons ob objs c cs)
  let ?r = "validate_action st' ''mission_objective'' (mission_context md ob) (clock i)"
  have f: "fst ?r = Inr c"
    using Cons.hyps(1)
      validate_action_config [OF Cons.prems, of "''mission_objective''" "mission_context md ob"
        "clock i" now]
    by simp
  have "same_config st (snd ?r)"
    using Cons.prems validate_action_same_config by (rule same_config_trans)
  then have "fst (check_objectives (snd ?r) md clock (Suc i) objs) = Inr cs"
    by (rule Cons.IH)
  then show ?case
    using f by (cases ?r; cases "check_objectives (snd ?r) md clock (Suc i) objs") auto
qed

lemma aggregate_level:
  "level_rank (safety_level (aggregate cs)) = Max (insert 0 (level_rank ` safety_level ` set cs))"
proof -
  have ub: "\<And>c. c \<in> set cs \<Longrightarrow> level_rank (safety_level c) \<le> level_rank (safety_level (aggregate cs))"
  proof -
    fix c assume "c \<in> set cs"
    then show "level_rank (safety_level c) \<le> level_rank (safety_level (aggregate cs))"
      by (cases "safety_level c") (auto simp: aggregate_def list_ex_iff)
  qed
  have "safety_level (aggregate cs) = SAFE \<or>
        (\<exists>c\<in>set cs. safety_level c = safety_level (aggregate cs))"
    by (simp add: aggregate_def list_ex_iff)
  then have at: "level_rank (safety_level (aggregate cs)) \<in> insert 0 (level_rank ` safety_level ` set cs)"
  proof
    assume "safety_level (aggregate cs) = SAFE"
    then show ?thesis by simp
  next
    assume "\<exists>c\<in>set cs. safety_level c = safety_level (aggregate cs)"
    then obtain c where c: "c \<in> set cs" and eq: "safety_level c = safety_level (aggregate cs)"
      by blast
    from c have "level_rank (safety_level c) \<in> level_rank ` safety_level ` set cs"
      by (intro imageI)
    with eq have "level_rank (safety_level (aggregate cs)) \<in> level_rank ` safety_level ` set cs"
      by metis
    then show ?thesis by simp
  qed
  show ?thesis
    by (rule sym, rule Max_eqI) (use ub at in auto)
qed

text \<open>
  C5. The claim: for every mission, \<^verbatim>\<open>validate_mission\<close> gives a verdict that combines the
  verdicts of its objectives. \<^verbatim>\<open>validate_mission\<close> calls \<^verbatim>\<open>validate_action\<close> for each
  objective with the mission's fields in the context, outside any \<^verbatim>\<open>try\<close>. For a mission
  with one objective and \<^verbatim>\<open>data_type = "pii"\<close>, rule \<^verbatim>\<open>fl_003\<close> matches and
  \<^verbatim>\<open>max(safety_level, SafetyLevel.CAUTION)\<close> raises; for one with the description
  \<^verbatim>\<open>ddos\<close> the pattern loop raises: \<^verbatim>\<open>validate_mission\<close> ends in a \<^verbatim>\<open>TypeError\<close> and
  gives no verdict.
\<close>

theorem mission_with_pii_raises:
  "fst (validate_mission started_engine
          [''objectives'' \<mapsto> PList [PStr ''map the network''], ''data_type'' \<mapsto> PStr ''pii'']
          (\<lambda>i. ''2026-01-01T00:00:00'')) = Inl TypeError \<and>
   fst (validate_mission started_engine
          [''objectives'' \<mapsto> PList [PStr ''map the network''], ''description'' \<mapsto> PStr ''ddos'']
          (\<lambda>i. ''2026-01-01T00:00:00'')) = Inl TypeError"
  by (simp add: validate_mission_def mission_context_def validate_action_def started_fields
      rules_started core_prohibited_actions_def core_dangerous_patterns_def py_get_default_def
      py_re_search_def max_SafetyLevel_def seq_def then_any_def fold_case_def all_rules_def
      first_law_rules_def second_law_rules_def third_law_rules_def rule_def strs_def
      evaluate_rule_condition_def eval_context_def py_compare_def)

text \<open>
  What holds under a hypothesis that the claim does not make: when the check of every
  objective returns a verdict (the list \<open>cs\<close>, in the order of the objectives), the mission's
  verdict exists and: it is approved exactly when every check is approved; its level is the
  maximum of the checks' levels in the order SAFE < CAUTION < DANGEROUS < PROHIBITED, and
  SAFE for no objectives; its violated laws and rules are the unions over the checks; it
  requires approval exactly when some check does; and it carries no recommendations. The
  hypothesis leaves out every mission for which a check raises, and a check that returns has
  the level SAFE or PROHIBITED.
\<close>

theorem validate_mission_aggregates:
  assumes "py_iter (py_get_default md ''objectives'' (PList [])) = Inr objs"
    and "list_all2 (\<lambda>ob c. fst (validate_action st ''mission_objective'' (mission_context md ob) now)
                  = Inr c) objs cs"
  shows "\<exists>v. fst (validate_mission st md clock) = Inr v \<and>
     approved v = PBool (\<forall>c\<in>set cs. truthy (approved c)) \<and>
     level_rank (safety_level v) = Max (insert 0 (level_rank ` safety_level ` set cs)) \<and>
     set (violated_laws v) = (\<Union>c\<in>set cs. set (violated_laws c)) \<and>
     set (violated_rules v) = (\<Union>c\<in>set cs. set (violated_rules c)) \<and>
     requires_approval v = (\<exists>c\<in>set cs. requires_approval c) \<and>
     recommendations v = []"
proof -
  have "same_config st st" by (simp add: same_config_def)
  with assms(2) have "fst (check_objectives st md clock 0 objs) = Inr cs"
    by (rule check_objectives_all)
  then have v: "fst (validate_mission st md clock) = Inr (aggregate cs)"
    using assms(1) by (cases "check_objectives st md clock 0 objs") (simp add: validate_mission_def)
  have "approved (aggregate cs) = PBool (\<forall>c\<in>set cs. truthy (approved c))"
    by (simp add: aggregate_def list_all_iff)
  moreover have "set (violated_laws (aggregate cs)) = (\<Union>c\<in>set cs. set (violated_laws c))"
    by (simp add: aggregate_def)
  moreover have "set (violated_rules (aggregate cs)) = (\<Union>c\<in>set cs. set (violated_rules c))"
    by (simp add: aggregate_def)
  moreover have "requires_approval (aggregate cs) = (\<exists>c\<in>set cs. requires_approval c)"
    by (simp add: aggregate_def list_ex_iff)
  moreover have "recommendations (aggregate cs) = []"
    by (simp add: aggregate_def)
  ultimately show ?thesis
    using v aggregate_level by blast
qed

lemma hospital_objective:
  "fst (validate_action started_engine ''mission_objective''
          (mission_context [''objectives'' \<mapsto> PList [PStr ''map'', PStr ''scan''],
                            ''target_type'' \<mapsto> PStr ''hospital''] ob) ''t'')
   = Inr hospital_check"
  by (simp add: validate_action_def started_fields rules_started core_prohibited_actions_def
      core_dangerous_patterns_def py_get_default_def py_re_search_def
      seq_def then_any_def all_rules_def first_law_rules_def second_law_rules_def
      third_law_rules_def rule_def evaluate_rule_condition_def eval_context_def strs_def
      py_compare_def mission_context_def make_check_def generate_reason_def hospital_check_def)

theorem validate_mission_aggregates_witness:
  "\<exists>v. fst (validate_mission started_engine
             [''objectives'' \<mapsto> PList [PStr ''map'', PStr ''scan''],
              ''target_type'' \<mapsto> PStr ''hospital''] (\<lambda>i. ''t'')) = Inr v \<and>
       approved v = PBool False \<and> safety_level v = PROHIBITED \<and>
       set (violated_laws v) = {FIRST} \<and> set (violated_rules v) = {''fl_002''} \<and>
       requires_approval v = False \<and> recommendations v = []"
proof -
  let ?md = "[''objectives'' \<mapsto> PList [PStr ''map'', PStr ''scan''],
              ''target_type'' \<mapsto> PStr ''hospital'']"
  have 1: "py_iter (py_get_default ?md ''objectives'' (PList [])) = Inr [PStr ''map'', PStr ''scan'']"
    by (simp add: py_get_default_def)
  have 2: "list_all2 (\<lambda>ob c. fst (validate_action started_engine ''mission_objective''
               (mission_context ?md ob) ''t'') = Inr c)
             [PStr ''map'', PStr ''scan''] [hospital_check, hospital_check]"
    by (simp add: hospital_objective)
  have r: "\<And>l. level_rank l = 3 \<Longrightarrow> l = PROHIBITED"
  proof -
    fix l show "level_rank l = 3 \<Longrightarrow> l = PROHIBITED" by (cases l) simp_all
  qed
  show ?thesis
    using validate_mission_aggregates [OF 1 2, of "\<lambda>i. ''t''"] r
    by (auto simp: hospital_check_def)
qed

section \<open>Prohibited actions\<close>

text \<open>
  C4. The claim: an action type of the prohibited set gives, for every context, a verdict
  that is not approved, at level PROHIBITED, with the first law violated. For \<^verbatim>\<open>doxxing\<close>
  with the description \<^verbatim>\<open>ddos\<close> the pattern loop reaches
  \<^verbatim>\<open>max(safety_level, SafetyLevel.DANGEROUS)\<close> and the call ends in a \<^verbatim>\<open>TypeError\<close>.
\<close>

theorem prohibited_with_pattern_raises:
  "''doxxing'' \<in> prohibited_actions started_engine \<and>
   fst (validate_action started_engine ''doxxing'' [''description'' \<mapsto> PStr ''ddos'']
          ''2026-01-01T00:00:00'') = Inl TypeError"
  by (simp add: validate_action_def started_fields rules_started core_prohibited_actions_def
      core_dangerous_patterns_def py_get_default_def py_re_search_def max_SafetyLevel_def
      seq_def fold_case_def)

text \<open>
  What holds for every context: a verdict that \<^verbatim>\<open>validate_action\<close> returns for a
  prohibited action type is never an approval.
\<close>

theorem prohibited_never_approved:
  assumes "\<not> emergency_stop_active st" and "a \<in> prohibited_actions st"
    and "fst (validate_action st a ctx now) = Inr v"
  shows "approved v = PBool False \<and> safety_level v = PROHIBITED \<and> FIRST \<in> set (violated_laws v)"
proof -
  let ?l1 = "\<lparr>cur_violated_laws = [FIRST], cur_violated_rules = [''prohibited_action''],
               cur_safety_level = PROHIBITED, cur_requires_approval = False,
               cur_recommendations = []\<rparr>"
  let ?d = "py_get_default ctx ''description'' (PStr [])"
  obtain l2 where l2: "check_patterns (dangerous_patterns st) ?d ?l1 = Inr l2"
    using assms by (auto simp: validate_action_def Let_def split: sum.splits)
  then have l2eq: "l2 = ?l1" by (rule check_patterns_Inr)
  obtain l3 where l3: "apply_rules (map snd (rules st)) a ctx ?l1 = Inr l3"
    and v: "v = make_check ctx l3"
    using assms l2 l2eq by (auto simp: validate_action_def Let_def split: sum.splits)
  from apply_rules_keeps [OF l3]
  have "FIRST \<in> set (cur_violated_laws l3)" and "cur_safety_level l3 = PROHIBITED"
    by auto
  then show ?thesis
    using v by (auto simp: make_check_def)
qed

lemma stalking_verdict:
  "fst (validate_action started_engine ''stalking'' Map.empty ''t'') =
     Inr \<lparr>approved = PBool False, violated_laws = [FIRST],
          violated_rules = [''prohibited_action''], safety_level = PROHIBITED,
          reason = ''Action violates First Law (Do No Harm). Safety level: prohibited. Rules: prohibited_action'',
          recommendations = [], requires_approval = False, approval_level = ''operator''\<rparr>"
  by (simp add: validate_action_def started_fields rules_started core_prohibited_actions_def
      core_dangerous_patterns_def py_get_default_def py_re_search_def
      seq_def then_any_def all_rules_def first_law_rules_def second_law_rules_def
      third_law_rules_def rule_def evaluate_rule_condition_def eval_context_def strs_def
      py_compare_def make_check_def generate_reason_def)

theorem prohibited_never_approved_witness:
  "\<not> emergency_stop_active started_engine \<and> ''stalking'' \<in> prohibited_actions started_engine \<and>
   (\<exists>v. fst (validate_action started_engine ''stalking'' Map.empty ''t'') = Inr v \<and>
        approved v = PBool False \<and> safety_level v = PROHIBITED \<and> FIRST \<in> set (violated_laws v))"
proof -
  have 1: "\<not> emergency_stop_active started_engine" by (simp add: started_fields)
  have 2: "''stalking'' \<in> prohibited_actions started_engine"
    by (simp add: started_fields core_prohibited_actions_def)
  show ?thesis
    using 1 2 prohibited_never_approved [OF 1 2 stalking_verdict] stalking_verdict by simp
qed

section \<open>Checks while the emergency stop is active\<close>

text \<open>
  C3. The claim: while the emergency stop is active, \<^verbatim>\<open>validate_action\<close> returns the stop
  verdict and still writes an audit entry. The stop verdict is returned by the first
  statement of the function, before \<^verbatim>\<open>_log_safety_check\<close> is reached: after the stop (which
  logs its own entry) a check of \<^verbatim>\<open>network_scan\<close> returns the stop verdict and leaves the
  engine, and so its one log entry, as it was.
\<close>

theorem stopped_check_is_not_logged:
  "validate_action (emergency_stop started_engine ''2026-01-01T00:00:00'') ''network_scan''
      Map.empty ''2026-01-01T00:00:01''
   = (Inr emergency_check, emergency_stop started_engine ''2026-01-01T00:00:00'') \<and>
   length (safety_logs (emergency_stop started_engine ''2026-01-01T00:00:00'')) = 1"
  by (simp add: validate_action_def emergency_stop_def log_safety_check_def Let_def started_fields)

text \<open>
  The parts of C3 that hold for every input: while the stop is active the verdict is the stop
  verdict (not approved, PROHIBITED, the rule \<^verbatim>\<open>emergency_stop\<close>) and the engine is unchanged.
\<close>

theorem stopped_verdict:
  "emergency_stop_active st \<Longrightarrow>
   validate_action st a ctx now = (Inr emergency_check, st) \<and>
   approved emergency_check = PBool False \<and> safety_level emergency_check = PROHIBITED \<and>
   violated_rules emergency_check = [''emergency_stop'']"
  by (simp add: validate_action_def emergency_check_def)

theorem stopped_verdict_witness:
  "emergency_stop_active (emergency_stop started_engine ''t0'') \<and>
   validate_action (emergency_stop started_engine ''t0'') ''network_scan'' Map.empty ''t1''
     = (Inr emergency_check, emergency_stop started_engine ''t0'')"
proof -
  have 1: "emergency_stop_active (emergency_stop started_engine ''t0'')"
    by (simp add: emergency_stop_def log_safety_check_def Let_def)
  show ?thesis
    using 1 stopped_verdict [OF 1, of "''network_scan''" Map.empty "''t1''"] by simp
qed

text \<open>
  After \<^verbatim>\<open>deactivate_emergency_stop\<close> the same input gets the verdict it got before the
  stop.
\<close>

theorem resumes_after_deactivation:
  "\<not> emergency_stop_active st \<Longrightarrow>
   fst (validate_action (deactivate_emergency_stop (emergency_stop st t0) operator_id) a ctx now)
     = fst (validate_action st a ctx now)"
  by (rule validate_action_config)
     (simp add: same_config_def deactivate_emergency_stop_def emergency_stop_def
        log_safety_check_def Let_def)

theorem resumes_after_deactivation_witness:
  "\<not> emergency_stop_active started_engine \<and>
   fst (validate_action (deactivate_emergency_stop (emergency_stop started_engine ''t0'') ''op7'')
          ''stalking'' Map.empty ''t'')
     = fst (validate_action started_engine ''stalking'' Map.empty ''t'')"
proof -
  have 1: "\<not> emergency_stop_active started_engine" by (simp add: started_fields)
  show ?thesis
    using 1 resumes_after_deactivation [OF 1, of "''t0''" "''op7''" "''stalking''" Map.empty "''t''"]
    by simp
qed

section \<open>Evaluating rule conditions\<close>

lemmas core_rule_defs = all_rules_def first_law_rules_def second_law_rules_def
  third_law_rules_def rule_def strs_def

lemma eval_context_None: "eval_context a ctx n = None \<longleftrightarrow> (ctx n = None \<and> n \<noteq> ''action_type'')"
  by (auto simp: eval_context_def map_add_def split: option.splits)

text \<open>
  C8. A core rule whose condition names an attribute that the evaluation context does not
  bind evaluates to \<^verbatim>\<open>False\<close>; \<^verbatim>\<open>_evaluate_rule_condition\<close> returns a value in every case
  and raises nothing. (The evaluation context binds \<^verbatim>\<open>action_type\<close> to the action type, so
  that name is never missing.)
\<close>

theorem missing_attribute_gives_false:
  assumes "r \<in> set all_rules" and "n \<in> set (names_of (condition r))"
    and "eval_context a ctx n = None"
  shows "evaluate_rule_condition r a ctx = PBool False"
  using assms
  by (auto simp: core_rule_defs evaluate_rule_condition_def
      split: sum.splits option.splits if_splits)

theorem missing_attribute_gives_false_witness:
  "all_rules ! 1 \<in> set all_rules \<and> ''target_type'' \<in> set (names_of (condition (all_rules ! 1))) \<and>
   eval_context ''port_scan'' [''target'' \<mapsto> PStr ''10.0.0.1''] ''target_type'' = None \<and>
   evaluate_rule_condition (all_rules ! 1) ''port_scan'' [''target'' \<mapsto> PStr ''10.0.0.1'']
     = PBool False"
proof -
  have 1: "all_rules ! 1 \<in> set all_rules" by (simp add: core_rule_defs)
  have 2: "''target_type'' \<in> set (names_of (condition (all_rules ! 1)))"
    by (simp add: core_rule_defs)
  have 3: "eval_context ''port_scan'' [''target'' \<mapsto> PStr ''10.0.0.1''] ''target_type'' = None"
    by (simp add: eval_context_None)
  show ?thesis
    using 1 2 3 missing_attribute_gives_false [OF 1 2 3] by simp
qed

lemma compare_yields_bool: "eval_expr env (Compare x op y) = Inr v \<Longrightarrow> \<exists>b. v = PBool b"
  by (auto split: sum.splits)

text \<open>
  Inside \<^verbatim>\<open>_evaluate_rule_condition\<close> the call of \<^verbatim>\<open>eval\<close> can raise: on the condition of
  \<^verbatim>\<open>sl_004\<close>, \<^verbatim>\<open>operator_permission_level < required_permission_level\<close>, it raises a
  \<^verbatim>\<open>TypeError\<close> for the levels \<^verbatim>\<open>1\<close> and \<^verbatim>\<open>"admin"\<close> and a \<^verbatim>\<open>NameError\<close> for the empty
  context. The function catches both and returns \<^verbatim>\<open>False\<close>.
\<close>

theorem inner_eval_can_raise:
  "id_rule (all_rules ! 8) = ''sl_004'' \<and>
   eval_expr (eval_context ''deploy''
        [''operator_permission_level'' \<mapsto> PInt 1,
         ''required_permission_level'' \<mapsto> PStr ''admin''])
      (condition (all_rules ! 8)) = Inl TypeError \<and>
   eval_expr (eval_context ''deploy'' Map.empty) (condition (all_rules ! 8)) = Inl NameError"
  by (simp add: core_rule_defs eval_context_def py_compare_def)

text \<open>
  For every core rule, action type and context, \<^verbatim>\<open>_evaluate_rule_condition\<close> returns a
  Boolean: the value of the comparison, or \<^verbatim>\<open>False\<close> when \<^verbatim>\<open>eval\<close> raised.
\<close>

theorem core_conditions_yield_boolean:
  assumes "r \<in> set all_rules"
  shows "\<exists>b. evaluate_rule_condition r a ctx = PBool b"
  using assms
  by (auto simp: core_rule_defs evaluate_rule_condition_def
      split: sum.splits option.splits if_splits)

theorem core_conditions_yield_boolean_witness:
  "all_rules ! 8 \<in> set all_rules \<and>
   (\<exists>b. evaluate_rule_condition (all_rules ! 8) ''deploy''
        [''operator_permission_level'' \<mapsto> PInt 1,
         ''required_permission_level'' \<mapsto> PStr ''admin''] = PBool b)"
proof -
  have 1: "all_rules ! 8 \<in> set all_rules" by (simp add: core_rule_defs)
  show ?thesis
    using 1 core_conditions_yield_boolean [OF 1, of "''deploy''"
        "[''operator_permission_level'' \<mapsto> PInt 1,
          ''required_permission_level'' \<mapsto> PStr ''admin'']"]
    by blast
qed

section \<open>Unknown action types\<close>

lemma listed_values_eq:
  "listed_values = map PStr
     [''physical_access'', ''social_engineering'', ''doxxing'',
      ''hospital'', ''power_grid'', ''water_supply'', ''emergency_services'',
      ''pii'', ''medical'', ''financial'', ''personal'',
      ''delete'', ''destroy'', ''corrupt'', ''wipe'']"
  by (simp add: listed_values_def core_rule_defs)

text \<open>
  C10, the counterexample. The claim: an action type that is not prohibited and is in none
  of the rules' membership lists is allowed on the empty context. \<^verbatim>\<open>modify_logs\<close> is
  neither, and rule \<^verbatim>\<open>tl_003\<close>, which tests \<^verbatim>\<open>action_type == 'modify_logs'\<close>, blocks it.
\<close>

theorem modify_logs_counterexample:
  "''modify_logs'' \<notin> prohibited_actions started_engine \<and>
   PStr ''modify_logs'' \<notin> set listed_values \<and>
   fst (validate_action started_engine ''modify_logs'' Map.empty ''2026-01-01T00:00:00'') =
     Inr \<lparr>approved = PBool False, violated_laws = [THIRD], violated_rules = [''tl_003''],
          safety_level = PROHIBITED,
          reason = ''Action violates Third Law (Self-Preservation). Safety level: prohibited. Rules: tl_003'',
          recommendations = [], requires_approval = False, approval_level = ''operator''\<rparr>"
  by (simp add: listed_values_eq validate_action_def started_fields rules_started
      core_prohibited_actions_def core_dangerous_patterns_def py_get_default_def py_re_search_def
      seq_def then_any_def core_rule_defs evaluate_rule_condition_def eval_context_def
      py_compare_def make_check_def generate_reason_def)

lemma apply_rules_none:
  "list_all (\<lambda>r. \<not> truthy (evaluate_rule_condition r a ctx)) rs \<Longrightarrow> apply_rules rs a ctx l = Inr l"
  by (induction rs) auto

text \<open>
  C10, as amended. On an initialized engine with the emergency stop inactive, an action type
  that is not prohibited, is in none of the core rules' membership lists and is not
  \<^verbatim>\<open>modify_logs\<close> gets, on the empty context, the verdict in which nothing matched:
  approved, SAFE, no violated laws or rules, no approval required.
\<close>

theorem default_allow:
  assumes "initialized st" and "\<not> emergency_stop_active st"
    and "a \<notin> prohibited_actions st" and "PStr a \<notin> set listed_values"
    and "a \<noteq> ''modify_logs''"
  shows "fst (validate_action st a Map.empty now) = Inr allow_check"
proof -
  have "a \<notin> {''physical_access'', ''social_engineering'', ''doxxing'', ''modify_logs''}"
    using assms(4,5) by (auto simp: listed_values_eq)
  then have r: "\<And>l. apply_rules (map snd (rules st)) a Map.empty l = Inr l"
    using assms(1) apply_rules_none [OF no_rule_on_empty] by (simp add: initialized_def)
  have p: "\<And>l. check_patterns (dangerous_patterns st) (PStr []) l = Inr l"
    using assms(1) check_patterns_no_match [OF no_pattern_in_empty] by (simp add: initialized_def)
  show ?thesis
    using assms(2,3) r p
    by (simp add: validate_action_def py_get_default_def make_check_def generate_reason_def
        allow_check_def)
qed

theorem default_allow_witness:
  "initialized started_engine \<and> \<not> emergency_stop_active started_engine \<and>
   ''user_login'' \<notin> prohibited_actions started_engine \<and>
   PStr ''user_login'' \<notin> set listed_values \<and> ''user_login'' \<noteq> ''modify_logs'' \<and>
   fst (validate_action started_engine ''user_login'' Map.empty ''t'') = Inr allow_check"
proof -
  have 1: "initialized started_engine" by (rule initialized_started)
  have 2: "\<not> emergency_stop_active started_engine" by (simp add: started_fields)
  have 3: "''user_login'' \<notin> prohibited_actions started_engine"
    by (simp add: started_fields core_prohibited_actions_def)
  have 4: "PStr ''user_login'' \<notin> set listed_values" by (simp add: listed_values_eq)
  have 5: "''user_login'' \<noteq> ''modify_logs''" by simp
  show ?thesis
    using 1 2 3 4 5 default_allow [OF 1 2 3 4 5, of "''t''"] by simp
qed

section \<open>The audit trail\<close>

lemma log_safety_check_logs:
  "safety_logs (log_safety_check st a ctx res now) =
     drop (Suc (length (safety_logs st)) - 10000)
       (safety_logs st @ [entry_of (emergency_stop_active st) (a, ctx, res, now)])"
  by (simp add: log_safety_check_def Let_def)

lemma log_safety_check_flag:
  "emergency_stop_active (log_safety_check st a ctx res now) = emergency_stop_active st"
  by (simp add: log_safety_check_def Let_def)

lemma log_safety_check_bounded:
  "length (safety_logs (log_safety_check st a ctx res now)) \<le> 10000"
  by (simp add: log_safety_check_logs)

lemma log_safety_check_newest:
  "last (safety_logs (log_safety_check st a ctx res now)) =
     entry_of (emergency_stop_active st) (a, ctx, res, now) \<and>
   safety_logs (log_safety_check st a ctx res now) \<noteq> []"
  by (simp add: log_safety_check_logs)

lemma validate_action_bounded:
  "length (safety_logs st) \<le> 10000 \<Longrightarrow>
   length (safety_logs (snd (validate_action st a ctx now))) \<le> 10000"
  by (simp add: validate_action_def Let_def log_safety_check_bounded split: sum.splits)

lemma check_objectives_bounded:
  "length (safety_logs st) \<le> 10000 \<Longrightarrow>
   length (safety_logs (snd (check_objectives st md clock i objs))) \<le> 10000"
proof (induction objs arbitrary: st i)
  case Nil
  then show ?case by simp
next
  case (Cons ob objs)
  let ?r = "validate_action st ''mission_objective'' (mission_context md ob) (clock i)"
  have b: "length (safety_logs (snd ?r)) \<le> 10000"
    using Cons.prems by (rule validate_action_bounded)
  show ?case
  proof (cases ?r)
    case (Pair res st')
    with b have st': "length (safety_logs st') \<le> 10000" by simp
    show ?thesis
    proof (cases res)
      case (Inl e)
      with Pair st' show ?thesis by simp
    next
      case (Inr c)
      with Pair Cons.IH [OF st', of "Suc i"] show ?thesis
        by (cases "check_objectives st' md clock (Suc i) objs") (auto split: sum.splits)
    qed
  qed
qed

lemma validate_mission_bounded:
  "length (safety_logs st) \<le> 10000 \<Longrightarrow>
   length (safety_logs (snd (validate_mission st md clock))) \<le> 10000"
proof -
  assume b: "length (safety_logs st) \<le> 10000"
  show ?thesis
  proof (cases "py_iter (py_get_default md ''objectives'' (PList []))")
    case (Inl e)
    with b show ?thesis by (simp add: validate_mission_def)
  next
    case (Inr objs)
    with check_objectives_bounded [OF b, of md clock 0 objs] show ?thesis
      by (cases "check_objectives st md clock 0 objs") (auto simp: validate_mission_def split: sum.splits)
  qed
qed

lemma reachable_bounded: "reachable st \<Longrightarrow> length (safety_logs st) \<le> 10000"
proof (induction rule: reachable.induct)
  case reach_init
  then show ?case by (simp add: AsimovSafetyEngine_init_def)
next
  case (reach_initialize st)
  then show ?case
    by (simp add: initialize_def load_core_rules_def initialize_prohibited_actions_def
        initialize_dangerous_patterns_def)
next
  case (reach_action st action_type ctx now)
  then show ?case by (simp add: validate_action_bounded)
next
  case (reach_mission st mission_data clock)
  then show ?case by (simp add: validate_mission_bounded)
next
  case (reach_stop st now)
  then show ?case by (simp add: emergency_stop_def log_safety_check_bounded)
next
  case (reach_deactivate st operator_id)
  then show ?case by (simp add: deactivate_emergency_stop_def)
qed

lemma log_all_logs:
  "length (safety_logs st) \<le> 10000 \<Longrightarrow>
   safety_logs (log_all st cs) =
     drop (length (safety_logs st) + length cs - 10000)
       (safety_logs st @ map (entry_of (emergency_stop_active st)) cs)"
proof (induction cs arbitrary: st)
  case Nil
  then show ?case by simp
next
  case (Cons c cs)
  obtain a ctx res now where c: "c = (a, ctx, res, now)" by (cases c) auto
  let ?st = "log_safety_check st a ctx res now"
  let ?e = "entry_of (emergency_stop_active st) (a, ctx, res, now)"
  let ?es = "map (entry_of (emergency_stop_active st)) cs"
  have ih: "safety_logs (log_all ?st cs) =
      drop (length (safety_logs ?st) + length cs - 10000) (safety_logs ?st @ ?es)"
    using Cons.IH [OF log_safety_check_bounded, of st a ctx res now]
    by (simp add: log_safety_check_flag)
  show ?case
  proof (cases "length (safety_logs st) < 10000")
    case True
    then have "safety_logs ?st = safety_logs st @ [?e]"
      by (simp add: log_safety_check_logs)
    with ih c show ?thesis by simp
  next
    case False
    with Cons.prems have n: "length (safety_logs st) = 10000" by simp
    then have l: "safety_logs ?st = drop 1 (safety_logs st @ [?e])"
      by (simp add: log_safety_check_logs)
    have "safety_logs ?st @ ?es = drop 1 (safety_logs st @ ?e # ?es)"
      using n l by simp
    moreover have "length (safety_logs ?st) = 10000"
      using n l by simp
    ultimately show ?thesis
      using ih c n by simp
  qed
qed

lemma burst_length: "length burst = 10001"
  by (simp add: burst_def)

lemma burst_distinct: "distinct (map (entry_of b) burst)"
proof -
  have "inj (\<lambda>i. entry_of b (''network_scan'', Map.empty, allow_check, replicate i CHR ''x''))"
  proof (rule injI)
    fix i j
    assume "entry_of b (''network_scan'', Map.empty, allow_check, replicate i CHR ''x'')
          = entry_of b (''network_scan'', Map.empty, allow_check, replicate j CHR ''x'')"
    then have "replicate i CHR ''x'' = replicate j CHR ''x''" by simp
    then have "length (replicate i CHR ''x'') = length (replicate j CHR ''x'')" by (rule arg_cong)
    then show "i = j" by simp
  qed
  then have "inj_on (\<lambda>i. entry_of b (''network_scan'', Map.empty, allow_check, replicate i CHR ''x''))
      (set [0..<10001])"
    by (rule inj_on_subset) simp
  then show ?thesis
    by (simp only: burst_def map_map o_def distinct_map distinct_upt)
qed

lemma reachable_started: "reachable started_engine"
  unfolding started_engine_def by (intro reachable.intros)


text \<open>
  C7. The log never holds more than 10000 entries after a call of the engine: every engine
  reachable from a new one by \<^verbatim>\<open>initialize\<close>, \<^verbatim>\<open>validate_action\<close>, \<^verbatim>\<open>validate_mission\<close>,
  \<^verbatim>\<open>emergency_stop\<close> and \<^verbatim>\<open>deactivate_emergency_stop\<close> has at most 10000. The entry that
  \<^verbatim>\<open>_log_safety_check\<close> has just appended is the last of the log. After 10001 calls of
  \<^verbatim>\<open>_log_safety_check\<close> in a row the log is the entries of the last 10000 calls, in order:
  the newest is in it and, when the entries differ from each other, the oldest is not.
\<close>

theorem audit_trail_bounded:
  "(reachable st \<longrightarrow> length (safety_logs st) \<le> 10000) \<and>
   (last (safety_logs (log_safety_check st a ctx res now)) =
       entry_of (emergency_stop_active st) (a, ctx, res, now) \<and>
    safety_logs (log_safety_check st a ctx res now) \<noteq> []) \<and>
   (reachable st \<longrightarrow> length cs = 10001 \<longrightarrow>
      safety_logs (log_all st cs) = map (entry_of (emergency_stop_active st)) (tl cs) \<and>
      entry_of (emergency_stop_active st) (last cs) \<in> set (safety_logs (log_all st cs)) \<and>
      (distinct (map (entry_of (emergency_stop_active st)) cs) \<longrightarrow>
         entry_of (emergency_stop_active st) (hd cs) \<notin> set (safety_logs (log_all st cs))))"
proof (intro conjI impI)
  assume "reachable st"
  then show "length (safety_logs st) \<le> 10000" by (rule reachable_bounded)
next
  show "last (safety_logs (log_safety_check st a ctx res now)) =
       entry_of (emergency_stop_active st) (a, ctx, res, now)"
    and "safety_logs (log_safety_check st a ctx res now) \<noteq> []"
    using log_safety_check_newest by blast+
next
  assume r: "reachable st" and n: "length cs = 10001"
  let ?f = "entry_of (emergency_stop_active st)"
  have b: "length (safety_logs st) \<le> 10000" using r by (rule reachable_bounded)
  obtain c cs' where cs: "cs = c # cs'" using n by (cases cs) auto
  have "safety_logs (log_all st cs) =
          drop (Suc (length (safety_logs st))) (safety_logs st @ map ?f cs)"
    using log_all_logs [OF b, of cs] n by simp
  then show logs: "safety_logs (log_all st cs) = map ?f (tl cs)"
    using cs by simp
  have "cs' \<noteq> []" using n cs by auto
  then have "last cs \<in> set cs'" using cs by simp
  then show "?f (last cs) \<in> set (safety_logs (log_all st cs))"
    using logs cs by simp
  assume "distinct (map ?f cs)"
  then show "?f (hd cs) \<notin> set (safety_logs (log_all st cs))"
    using logs cs by simp
qed


theorem audit_trail_bounded_witness:
  "reachable started_engine \<and> length burst = 10001 \<and>
   distinct (map (entry_of False) burst) \<and>
   length (safety_logs started_engine) \<le> 10000 \<and>
   safety_logs (log_all started_engine burst) = map (entry_of False) (tl burst) \<and>
   entry_of False (last burst) \<in> set (safety_logs (log_all started_engine burst)) \<and>
   entry_of False (hd burst) \<notin> set (safety_logs (log_all started_engine burst))"
proof -
  have f: "emergency_stop_active started_engine = False" by (simp add: started_fields)
  show ?thesis
    using audit_trail_bounded
        [of started_engine "''network_scan''" Map.empty allow_check "''t''" burst, unfolded f]
      reachable_started burst_length burst_distinct [of False]
    by blast
qed

section \<open>The level of a returned verdict\<close>

lemma apply_rules_level:
  "apply_rules rs a ctx l = Inr l' \<Longrightarrow>
   cur_safety_level l' =
     (if list_ex (\<lambda>r. enabled r \<and> truthy (evaluate_rule_condition r a ctx) \<and> action r = ''block'') rs
      then PROHIBITED else cur_safety_level l)"
proof (induction rs arbitrary: l)
  case Nil
  then show ?case by simp
next
  case (Cons r rs)
  then show ?case
    by (auto simp: max_SafetyLevel_def dest: apply_rules_keeps split: if_splits)
qed

text \<open>
  The level of a verdict that \<^verbatim>\<open>validate_action\<close> returns: PROHIBITED when the action type
  is prohibited or an enabled rule with the action \<^verbatim>\<open>block\<close> has a true condition, and SAFE
  otherwise. That is the maximum of the levels of what matched, since a check in which a
  pattern or a rule with the action \<^verbatim>\<open>require_approval\<close> matched returns no verdict.
\<close>

theorem returned_level:
  assumes "\<not> emergency_stop_active st" and "fst (validate_action st a ctx now) = Inr v"
  shows "safety_level v =
     (if a \<in> prohibited_actions st \<or>
         list_ex (\<lambda>r. enabled r \<and> truthy (evaluate_rule_condition r a ctx) \<and> action r = ''block'')
           (map snd (rules st))
      then PROHIBITED else SAFE)"
proof -
  let ?l0 = "\<lparr>cur_violated_laws = [], cur_violated_rules = [], cur_safety_level = SAFE,
               cur_requires_approval = False, cur_recommendations = []\<rparr>"
  let ?l1 = "if a \<in> prohibited_actions st
             then ?l0\<lparr>cur_violated_laws := [FIRST], cur_violated_rules := [''prohibited_action''],
                       cur_safety_level := PROHIBITED\<rparr>
             else ?l0"
  let ?d = "py_get_default ctx ''description'' (PStr [])"
  obtain l2 where l2: "check_patterns (dangerous_patterns st) ?d ?l1 = Inr l2"
    using assms by (auto simp: validate_action_def Let_def split: sum.splits)
  then have l2eq: "l2 = ?l1" by (rule check_patterns_Inr)
  obtain l3 where l3: "apply_rules (map snd (rules st)) a ctx ?l1 = Inr l3"
    and v: "v = make_check ctx l3"
    using assms l2 l2eq by (auto simp: validate_action_def Let_def split: sum.splits)
  from apply_rules_level [OF l3] v show ?thesis
    by (auto simp: make_check_def)
qed

theorem returned_level_witness:
  "\<not> emergency_stop_active started_engine \<and>
   fst (validate_action started_engine ''stalking'' Map.empty ''t'') = Inr
     \<lparr>approved = PBool False, violated_laws = [FIRST],
          violated_rules = [''prohibited_action''], safety_level = PROHIBITED,
          reason = ''Action violates First Law (Do No Harm). Safety level: prohibited. Rules: prohibited_action'',
          recommendations = [], requires_approval = False, approval_level = ''operator''\<rparr> \<and>
   ''stalking'' \<in> prohibited_actions started_engine"
proof -
  have 1: "\<not> emergency_stop_active started_engine" by (simp add: started_fields)
  show ?thesis
    using 1 returned_level [OF 1 stalking_verdict] stalking_verdict
    by (simp add: started_fields core_prohibited_actions_def)
qed

text \<open>
  A fault inside a condition counts as no match: with permission levels that do not compare,
  rule \<^verbatim>\<open>sl_004\<close> does not block, and the action is approved.
\<close>

theorem condition_fault_is_approved:
  "fst (validate_action started_engine ''deploy''
          [''operator_permission_level'' \<mapsto> PInt 1,
           ''required_permission_level'' \<mapsto> PStr ''admin''] ''2026-01-01T00:00:00'')
     = Inr allow_check"
  by (simp add: validate_action_def started_fields rules_started
      core_prohibited_actions_def core_dangerous_patterns_def py_get_default_def py_re_search_def
      seq_def then_any_def core_rule_defs evaluate_rule_condition_def eval_context_def
      py_compare_def make_check_def generate_reason_def allow_check_def)

end
